theory Spec2Isabelle
  imports Main "HOL-Library.Word" "HOL-Library.Char_ord" "HOL-Library.List_Lexorder"
    "HOL-Library.Sublist"
begin

unbundle bit_operations_syntax

section \<open>Bytes, files and paths\<close>

text \<open>
  A Python \<open>bytes\<close> object is a list of 8-bit values; Python integers are unbounded, so every
  decoded number is an \<open>int\<close>.  An open binary file is modelled by the bytes that are still
  unread: \<open>fp.read(n)\<close> hands out at most \<open>n\<close> of them (fewer at the end of the file, none
  after it) and \<open>fp.seek(n, os.SEEK_CUR)\<close> moves forward, possibly past the end.
\<close>

type_synonym byte = "8 word"
type_synonym bytes = "byte list"

definition fp_read :: "nat \<Rightarrow> bytes \<Rightarrow> bytes \<times> bytes" where
  "fp_read n fp = (take n fp, drop n fp)"

definition fp_seek_cur :: "nat \<Rightarrow> bytes \<Rightarrow> bytes" where
  "fp_seek_cur n fp = drop n fp"

text \<open>The slice \<open>data[i:j]\<close> for indices \<open>0 \<le> i \<le> j\<close>; it is clipped at the end of the data.\<close>

definition slice :: "'a list \<Rightarrow> nat \<Rightarrow> nat \<Rightarrow> 'a list" where
  "slice xs i j = take (j - i) (drop i xs)"

text \<open>\<open>int.from_bytes(data, 'big')\<close> and \<open>int.from_bytes(data, 'little')\<close>; both give 0 on
  the empty byte string.\<close>

definition from_bytes_big :: "bytes \<Rightarrow> int" where
  "from_bytes_big data = foldl (\<lambda>acc b. acc * 256 + uint b) 0 data"

definition from_bytes_little :: "bytes \<Rightarrow> int" where
  "from_bytes_little data = foldr (\<lambda>b acc. uint b + 256 * acc) data 0"

definition read_uint16_be :: "bytes \<Rightarrow> nat \<Rightarrow> int" where
  "read_uint16_be data offset = from_bytes_big (slice data offset (offset + 2))"

text \<open>
  Every failure of the source is a raised exception.  The parsers raise \<open>ValueError\<close> with a
  message; opening or listing something that is not there raises an \<open>OSError\<close>.
\<close>

datatype error = ValueError string | OSError

text \<open>
  A path is the list of its components (\<open>PurePath.parts\<close>); a file system snapshot maps a
  path to a regular file with its content or to a directory with the names of its entries.
\<close>

type_synonym path = "string list"

datatype node = File bytes | Dir "string list"

type_synonym filesystem = "path \<Rightarrow> node option"

text \<open>An absolute path has the root \<open>''/''\<close> as its first component.  The root has no name and is
  its own parent, as the empty relative path is.\<close>

definition path_name :: "path \<Rightarrow> string" where
  "path_name p = (if p = [] \<or> p = [''/''] then [] else last p)"

definition path_parent :: "path \<Rightarrow> path" where
  "path_parent p = (if p = [''/''] then p else butlast p)"

text \<open>\<open>p.relative_to(other)\<close> raises \<open>ValueError\<close> unless \<open>other\<close> is a prefix of \<open>p\<close>; the
  message, which quotes both paths, is shortened here.\<close>

definition relative_to :: "path \<Rightarrow> path \<Rightarrow> error + path" where
  "relative_to p other =
     (if take (length other) p = other then Inr (drop (length other) p)
      else Inl (ValueError ''is not in the subpath''))"

fun join_posix :: "string list \<Rightarrow> string" where
  "join_posix [] = []"
| "join_posix [x] = x"
| "join_posix (x # y # ys) = x @ ''/'' @ join_posix (y # ys)"

definition as_posix :: "path \<Rightarrow> string" where
  "as_posix p =
     (case p of
        [] \<Rightarrow> ''.''
      | r # rest \<Rightarrow> if r = ''/'' then ''/'' @ join_posix rest else join_posix p)"

text \<open>\<open>name.rfind('.')\<close>: the index of the last dot, \<open>None\<close> for Python's \<open>-1\<close>.\<close>

definition rfind :: "char \<Rightarrow> string \<Rightarrow> nat option" where
  "rfind c s =
     (if c \<in> set s then Some (length s - 1 - length (takeWhile (\<lambda>x. x \<noteq> c) (rev s)))
      else None)"

text \<open>\<open>PurePath.suffix\<close> and \<open>PurePath.stem\<close>: the name is split at its last dot, unless that
  dot is the first or the last character of the name.\<close>

definition path_suffix :: "path \<Rightarrow> string" where
  "path_suffix p =
     (let name = path_name p in
      case rfind CHR ''.'' name of
        Some i \<Rightarrow> if 0 < i \<and> i < length name - 1 then drop i name else []
      | None \<Rightarrow> [])"

definition path_stem :: "path \<Rightarrow> string" where
  "path_stem p =
     (let name = path_name p in
      case rfind CHR ''.'' name of
        Some i \<Rightarrow> if 0 < i \<and> i < length name - 1 then take i name else name
      | None \<Rightarrow> name)"

text \<open>\<open>str.lower\<close> on the ASCII letters; the extensions compared against are ASCII.\<close>

definition lower_char :: "char \<Rightarrow> char" where
  "lower_char c =
     (if CHR ''A'' \<le> c \<and> c \<le> CHR ''Z'' then char_of (of_char c + (32::nat)) else c)"

definition lower :: "string \<Rightarrow> string" where
  "lower s = map lower_char s"

text \<open>\<open>str.replace(old, new)\<close> for a single character \<open>old\<close>.\<close>

definition replace_char :: "char \<Rightarrow> char \<Rightarrow> string \<Rightarrow> string" where
  "replace_char old new s = map (\<lambda>c. if c = old then new else c) s"

definition describe_alt :: "path \<Rightarrow> string" where
  "describe_alt p = replace_char CHR ''-'' CHR '' '' (replace_char CHR ''_'' CHR '' '' (path_stem p))"

definition SUPPORTED_EXTENSIONS :: "string set" where
  "SUPPORTED_EXTENSIONS = {''.jpg'', ''.jpeg'', ''.png'', ''.webp''}"

section \<open>The manual dimension parsers\<close>

definition JPEG_SOI :: bytes where
  "JPEG_SOI = [0xFF, 0xD8]"

definition JPEG_START_OF_FRAME_MARKERS :: "byte set" where
  "JPEG_START_OF_FRAME_MARKERS =
     {0xC0, 0xC1, 0xC2, 0xC3, 0xC5, 0xC6, 0xC7, 0xC9, 0xCA, 0xCB, 0xCD, 0xCE, 0xCF}"

definition PNG_SIGNATURE :: bytes where
  "PNG_SIGNATURE = [0x89, 0x50, 0x4E, 0x47, 0x0D, 0x0A, 0x1A, 0x0A]"

definition jpeg_no_dimensions :: error where
  "jpeg_no_dimensions = ValueError ''Could not determine JPEG dimensions''"

definition webp_no_dimensions :: error where
  "webp_no_dimensions = ValueError ''Could not determine WebP dimensions''"

text \<open>
  The inner loop of the JPEG branch: \<open>marker = fp.read(1)\<close>, repeated while the byte read is
  \<open>0xFF\<close>.  It returns the last read (empty at the end of the file) and the unread rest.
\<close>

fun read_marker :: "bytes \<Rightarrow> bytes \<times> bytes" where
  "read_marker [] = ([], [])"
| "read_marker (b # fp) = (if b = 0xFF then read_marker fp else ([b], fp))"

text \<open>
  The \<open>while True\<close> loop of the JPEG branch, on the unread bytes.  Every \<open>break\<close> leads to
  the \<open>raise\<close> after the loop.
\<close>

function jpeg_scan :: "bytes \<Rightarrow> error + (int \<times> int)" where
  "jpeg_scan fp =
     (case fp_read 1 fp of (marker_prefix, fp1) \<Rightarrow>
        if marker_prefix = [] then Inl jpeg_no_dimensions
        else if hd marker_prefix \<noteq> 0xFF then jpeg_scan fp1
        else
          (case read_marker fp1 of (marker, fp2) \<Rightarrow>
             if marker = [] then Inl jpeg_no_dimensions
             else
               let marker_value = hd marker in
               if marker_value \<in> JPEG_START_OF_FRAME_MARKERS then
                 (case fp_read 2 fp2 of (length_bytes, fp3) \<Rightarrow>
                    if length length_bytes \<noteq> 2 then Inl jpeg_no_dimensions
                    else
                      (case fp_read 1 fp3 of (precision, fp4) \<Rightarrow>
                       case fp_read 2 fp4 of (height_bytes, fp5) \<Rightarrow>
                       case fp_read 2 fp5 of (width_bytes, fp6) \<Rightarrow>
                         Inr (from_bytes_big width_bytes, from_bytes_big height_bytes)))
               else
                 (case fp_read 2 fp2 of (length_bytes, fp3) \<Rightarrow>
                    if length length_bytes \<noteq> 2 then Inl jpeg_no_dimensions
                    else
                      let len = from_bytes_big length_bytes in
                      jpeg_scan (fp_seek_cur (nat (max (len - 2) 0)) fp3))))"
  by pat_completeness auto
termination
proof (relation "measure length", goal_cases)
  case 1
  show ?case by simp
next
  case (2 fp marker_prefix fp1)
  then show ?case by (cases fp) (auto simp: fp_read_def)
next
  case (3 fp marker_prefix fp1 marker fp2 marker_value length_bytes fp3 len)
  have "length (snd (read_marker xs)) \<le> length xs" for xs
    by (induction xs) auto
  from this [of fp1] have "length fp2 \<le> length fp1"
    using 3 by (metis snd_conv)
  moreover have "length fp1 < length fp"
    using 3 by (cases fp) (auto simp: fp_read_def)
  moreover have "length fp3 \<le> length fp2"
    using 3 by (auto simp: fp_read_def)
  ultimately show ?case by (simp add: fp_seek_cur_def)
qed

declare jpeg_scan.simps [simp del]

definition read_jpeg_size :: "bytes \<Rightarrow> error + (int \<times> int)" where
  "read_jpeg_size content =
     (case fp_read 2 content of (soi, fp) \<Rightarrow>
        if soi \<noteq> JPEG_SOI then Inl (ValueError ''Not a JPEG file'')
        else jpeg_scan fp)"

definition read_png_size :: "bytes \<Rightarrow> error + (int \<times> int)" where
  "read_png_size content =
     (case fp_read 24 content of (header, fp) \<Rightarrow>
        if slice header 0 8 \<noteq> PNG_SIGNATURE then Inl (ValueError ''Not a PNG file'')
        else
          let width = from_bytes_big (slice header 16 20);
              height = from_bytes_big (slice header 20 24)
          in Inr (width, height))"

text \<open>The chunk tags \<open>b'RIFF'\<close>, \<open>b'WEBP'\<close>, \<open>b'VP8X'\<close>, \<open>b'VP8 '\<close> and \<open>b'VP8L'\<close>.\<close>

definition tag_RIFF :: bytes where "tag_RIFF = [0x52, 0x49, 0x46, 0x46]"
definition tag_WEBP :: bytes where "tag_WEBP = [0x57, 0x45, 0x42, 0x50]"
definition tag_VP8X :: bytes where "tag_VP8X = [0x56, 0x50, 0x38, 0x58]"
definition tag_VP8 :: bytes where "tag_VP8 = [0x56, 0x50, 0x38, 0x20]"
definition tag_VP8L :: bytes where "tag_VP8L = [0x56, 0x50, 0x38, 0x4C]"

text \<open>The \<open>while True\<close> loop of the WebP branch, on the unread bytes.\<close>

function webp_scan :: "bytes \<Rightarrow> error + (int \<times> int)" where
  "webp_scan fp =
     (case fp_read 8 fp of (chunk_header, fp1) \<Rightarrow>
        if length chunk_header < 8 then Inl webp_no_dimensions
        else
          let chunk_type = slice chunk_header 0 4;
              chunk_size = from_bytes_little (drop 4 chunk_header)
          in case fp_read (nat (chunk_size + chunk_size mod 2)) fp1 of (chunk_data, fp2) \<Rightarrow>
            if chunk_type = tag_VP8X \<and> length chunk_data \<ge> 10 then
              Inr (1 + from_bytes_little (slice chunk_data 4 7),
                   1 + from_bytes_little (slice chunk_data 7 10))
            else if chunk_type = tag_VP8 \<and> length chunk_data \<ge> 10 then
              Inr (uint (chunk_data ! 6) OR push_bit 8 (uint (chunk_data ! 7)),
                   uint (chunk_data ! 8) OR push_bit 8 (uint (chunk_data ! 9)))
            else if chunk_type = tag_VP8L \<and> length chunk_data \<ge> 5 then
              let bits = from_bytes_little (slice chunk_data 0 4) in
              Inr ((bits AND 0x3FFF) + 1, (drop_bit 14 bits AND 0x3FFF) + 1)
            else webp_scan fp2)"
  by pat_completeness auto
termination
proof (relation "measure length", goal_cases)
  case 1
  show ?case by simp
next
  case (2 fp chunk_header fp1 chunk_type chunk_size chunk_data fp2)
  then show ?case by (auto simp: fp_read_def)
qed

declare webp_scan.simps [simp del]

definition read_webp_size :: "bytes \<Rightarrow> error + (int \<times> int)" where
  "read_webp_size content =
     (case fp_read 12 content of (header, fp) \<Rightarrow>
        if slice header 0 4 \<noteq> tag_RIFF \<or> slice header 8 12 \<noteq> tag_WEBP
        then Inl (ValueError ''Not a WebP file'')
        else webp_scan fp)"

text \<open>\<open>path.open('rb')\<close> succeeds on a regular file only.\<close>

definition open_rb :: "filesystem \<Rightarrow> path \<Rightarrow> error + bytes" where
  "open_rb fs p = (case fs p of Some (File content) \<Rightarrow> Inr content | _ \<Rightarrow> Inl OSError)"

definition read_image_size :: "filesystem \<Rightarrow> path \<Rightarrow> error + (int \<times> int)" where
  "read_image_size fs p =
     (let suffix = lower (path_suffix p) in
      if suffix \<in> {''.jpg'', ''.jpeg''} then
        (case open_rb fs p of Inl e \<Rightarrow> Inl e | Inr content \<Rightarrow> read_jpeg_size content)
      else if suffix = ''.png'' then
        (case open_rb fs p of Inl e \<Rightarrow> Inl e | Inr content \<Rightarrow> read_png_size content)
      else if suffix = ''.webp'' then
        (case open_rb fs p of Inl e \<Rightarrow> Inl e | Inr content \<Rightarrow> read_webp_size content)
      else Inl (ValueError (''Unsupported format: '' @ suffix)))"

section \<open>The optional image library\<close>

text \<open>
  The module global \<open>Image\<close> (here \<open>PIL_Image\<close>) is \<open>None\<close> when Pillow cannot be imported.  When it is there,
  two of its operations are used; what they compute lies outside the repository, so they are
  parameters:
  \<^item> \<open>image_open_size\<close>: \<open>Image.open(path)\<close> followed by reading \<open>img.width\<close> and
    \<open>img.height\<close>; \<open>None\<close> stands for any exception.
  \<^item> \<open>thumbnail_save\<close>: the \<open>try\<close> body of \<open>generate_thumbnail\<close> (open, convert, shrink to
    the bounded edge, create the parent directory, save); it may change the file system
    whether or not it succeeds, and \<open>None\<close> stands for any exception.
\<close>

record pillow =
  image_open_size :: "filesystem \<Rightarrow> path \<Rightarrow> (int \<times> int) option"
  thumbnail_save :: "filesystem \<Rightarrow> path \<Rightarrow> path \<Rightarrow> int \<Rightarrow> filesystem \<times> (int \<times> int) option"

definition get_image_dimensions ::
  "pillow option \<Rightarrow> filesystem \<Rightarrow> path \<Rightarrow> error + (int \<times> int)" where
  "get_image_dimensions PIL_Image fs p =
     (case PIL_Image of
        Some pil \<Rightarrow>
          (case image_open_size pil fs p of
             Some dims \<Rightarrow> Inr dims
           | None \<Rightarrow> read_image_size fs p)
      | None \<Rightarrow> read_image_size fs p)"

definition generate_thumbnail ::
  "pillow option \<Rightarrow> filesystem \<Rightarrow> path \<Rightarrow> path \<Rightarrow> int \<Rightarrow> filesystem \<times> (int \<times> int) option" where
  "generate_thumbnail PIL_Image fs source destination max_edge =
     (case PIL_Image of
        None \<Rightarrow> (fs, None)
      | Some pil \<Rightarrow> thumbnail_save pil fs source destination max_edge)"

section \<open>Gallery items and the manifest\<close>

record GalleryItem =
  src :: string
  w :: int
  h :: int
  alt :: string
  thumb :: "string option"
  thumbWidth :: "int option"
  thumbHeight :: "int option"
  caption :: "string option"

datatype json = JStr string | JNum int

text \<open>
  \<open>to_dict\<close> builds a dictionary whose insertion order is the order of serialisation: an
  association list.  Each key is assigned at most once, so an assignment appends.  A test
  such as \<open>if self.thumb\<close> is false for \<open>None\<close>, for the empty string and for 0.
\<close>

definition to_dict :: "GalleryItem \<Rightarrow> (string \<times> json) list" where
  "to_dict self =
     (let data0 = [(''src'', JStr (src self)), (''w'', JNum (w self)),
                   (''h'', JNum (h self)), (''alt'', JStr (alt self))];
          data1 = (case thumb self of
                     Some t \<Rightarrow> if t \<noteq> [] then data0 @ [(''thumb'', JStr t)] else data0
                   | None \<Rightarrow> data0);
          data2 = (case (thumbWidth self, thumbHeight self) of
                     (Some tw, Some th) \<Rightarrow>
                        if tw \<noteq> 0 \<and> th \<noteq> 0
                        then data1 @ [(''thumbWidth'', JNum tw), (''thumbHeight'', JNum th)]
                        else data1
                   | _ \<Rightarrow> data1);
          data3 = (case caption self of
                     Some c \<Rightarrow> if c \<noteq> [] then data2 @ [(''caption'', JStr c)] else data2
                   | None \<Rightarrow> data2)
      in data3)"

definition is_file :: "filesystem \<Rightarrow> path \<Rightarrow> bool" where
  "is_file fs p = (case fs p of Some (File content) \<Rightarrow> True | _ \<Rightarrow> False)"

definition exists_path :: "filesystem \<Rightarrow> path \<Rightarrow> bool" where
  "exists_path fs p = (fs p \<noteq> None)"

text \<open>\<open>photos_dir.iterdir()\<close>: the entries of a directory, in the order the system lists them.\<close>

definition iterdir :: "filesystem \<Rightarrow> path \<Rightarrow> error + path list" where
  "iterdir fs d =
     (case fs d of
        Some (Dir names) \<Rightarrow> Inr (map (\<lambda>n. d @ [n]) names)
      | _ \<Rightarrow> Inl OSError)"

text \<open>
  The body of the loop of \<open>build_gallery_items\<close> for a photo that passed the three filters.
  The thumbnail step may write to the file system, so the snapshot is threaded through.
\<close>

definition build_item ::
  "pillow option \<Rightarrow> path \<Rightarrow> path \<Rightarrow> int \<Rightarrow> bool \<Rightarrow> filesystem \<Rightarrow> path
     \<Rightarrow> error + (filesystem \<times> GalleryItem)" where
  "build_item PIL_Image photos_dir thumbs_dir max_edge skip_thumbs fs photo =
     (case get_image_dimensions PIL_Image fs photo of
        Inl e \<Rightarrow> Inl e
      | Inr (width, height) \<Rightarrow>
          let alt_text = describe_alt photo;
              caption_text = alt_text;
              thumb_path = thumbs_dir @ [path_name photo];
              (fs1, thumb_dims) =
                 (if PIL_Image \<noteq> None \<and> \<not> skip_thumbs
                  then generate_thumbnail PIL_Image fs photo thumb_path max_edge
                  else (fs, None))
          in
          case (case thumb_dims of
                  Some (tw, th) \<Rightarrow>
                    (case relative_to thumb_path (path_parent photos_dir) of
                       Inl e \<Rightarrow> Inl e
                     | Inr rel \<Rightarrow> Inr (Some (as_posix rel), Some tw, Some th))
                | None \<Rightarrow> Inr (None, None, None)) of
            Inl e \<Rightarrow> Inl e
          | Inr (thumb_rel1, thumb_width1, thumb_height1) \<Rightarrow>
              (case (if thumb_rel1 = None \<and> exists_path fs1 thumb_path then
                       (case relative_to thumb_path (path_parent photos_dir) of
                          Inl e \<Rightarrow> Inl e
                        | Inr rel \<Rightarrow>
                            (case get_image_dimensions PIL_Image fs1 thumb_path of
                               Inr (tw, th) \<Rightarrow> Inr (Some (as_posix rel), Some tw, Some th)
                             | Inl e \<Rightarrow> Inr (Some (as_posix rel), None, None)))
                     else Inr (thumb_rel1, thumb_width1, thumb_height1)) of
                 Inl e \<Rightarrow> Inl e
               | Inr (thumb_rel, thumb_width, thumb_height) \<Rightarrow>
                   (case relative_to photo (path_parent photos_dir) of
                      Inl e \<Rightarrow> Inl e
                    | Inr rel \<Rightarrow>
                        Inr (fs1,
                             \<lparr>src = as_posix rel, w = width, h = height, alt = alt_text,
                              thumb = thumb_rel, thumbWidth = thumb_width,
                              thumbHeight = thumb_height, caption = Some caption_text\<rparr>))))"

text \<open>The \<open>for\<close> loop over the sorted entries; \<open>items\<close> is the list appended to.\<close>

fun build_loop ::
  "pillow option \<Rightarrow> path \<Rightarrow> path \<Rightarrow> int \<Rightarrow> bool \<Rightarrow> path list \<Rightarrow> filesystem
     \<Rightarrow> GalleryItem list \<Rightarrow> error + (filesystem \<times> GalleryItem list)" where
  "build_loop PIL_Image photos_dir thumbs_dir max_edge skip_thumbs [] fs items = Inr (fs, items)"
| "build_loop PIL_Image photos_dir thumbs_dir max_edge skip_thumbs (photo # photos) fs items =
     (if path_parent photo = thumbs_dir then
        build_loop PIL_Image photos_dir thumbs_dir max_edge skip_thumbs photos fs items
      else if \<not> is_file fs photo then
        build_loop PIL_Image photos_dir thumbs_dir max_edge skip_thumbs photos fs items
      else if lower (path_suffix photo) \<notin> SUPPORTED_EXTENSIONS then
        build_loop PIL_Image photos_dir thumbs_dir max_edge skip_thumbs photos fs items
      else
        (case build_item PIL_Image photos_dir thumbs_dir max_edge skip_thumbs fs photo of
           Inl e \<Rightarrow> Inl e
         | Inr (fs1, item) \<Rightarrow>
             build_loop PIL_Image photos_dir thumbs_dir max_edge skip_thumbs photos fs1
               (items @ [item])))"

text \<open>\<open>sorted\<close> compares paths by their components, each a string compared by code points
  (the POSIX flavour of \<open>pathlib\<close>; a non-ASCII name is its UTF-8 bytes, whose order is that
  of the code points).  The function returns the items; the file system it leaves behind is
  dropped.\<close>

definition build_gallery_items ::
  "pillow option \<Rightarrow> filesystem \<Rightarrow> path \<Rightarrow> path \<Rightarrow> int \<Rightarrow> bool
     \<Rightarrow> error + GalleryItem list" where
  "build_gallery_items PIL_Image fs photos_dir thumbs_dir max_edge skip_thumbs =
     (case iterdir fs photos_dir of
        Inl e \<Rightarrow> Inl e
      | Inr entries \<Rightarrow>
          (case build_loop PIL_Image photos_dir thumbs_dir max_edge skip_thumbs
                  (sort entries) fs [] of
             Inl e \<Rightarrow> Inl e
           | Inr (fs1, items) \<Rightarrow> Inr items))"


section \<open>Streams the scanning loops pass over\<close>

text \<open>
  The bytes the JPEG loop consumes without returning or breaking, after which it is at the
  top of the loop again: a byte other than \<open>0xFF\<close>, or a marker that is no start of frame
  (\<open>0xFF\<close>, any number of further \<open>0xFF\<close> bytes, the marker code, the two length bytes)
  followed by the \<open>max(length - 2, 0)\<close> bytes that the seek skips.
\<close>

inductive jpeg_skipped :: "bytes \<Rightarrow> bool" where
  skipped_nil: "jpeg_skipped []"
| skipped_byte: "b \<noteq> 0xFF \<Longrightarrow> jpeg_skipped pre \<Longrightarrow> jpeg_skipped (b # pre)"
| skipped_segment:
    "m \<noteq> 0xFF \<Longrightarrow> m \<notin> JPEG_START_OF_FRAME_MARKERS \<Longrightarrow>
     length payload = nat (max (from_bytes_big [l1, l2] - 2) 0) \<Longrightarrow> jpeg_skipped pre \<Longrightarrow>
     jpeg_skipped (0xFF # replicate k 0xFF @ m # l1 # l2 # payload @ pre)"

text \<open>
  The chunks the WebP loop reads in full and passes over: an 8-byte header, the payload with
  its padding, and none of the three tests on tag and payload length succeeds.
\<close>

inductive webp_skipped :: "bytes \<Rightarrow> bool" where
  skipped_none: "webp_skipped []"
| skipped_chunk:
    "length chunk_type = 4 \<Longrightarrow> length size_bytes = 4 \<Longrightarrow>
     length chunk_data =
       nat (from_bytes_little size_bytes + from_bytes_little size_bytes mod 2) \<Longrightarrow>
     \<not> (chunk_type = tag_VP8X \<and> 10 \<le> length chunk_data) \<Longrightarrow>
     \<not> (chunk_type = tag_VP8 \<and> 10 \<le> length chunk_data) \<Longrightarrow>
     \<not> (chunk_type = tag_VP8L \<and> 5 \<le> length chunk_data) \<Longrightarrow>
     webp_skipped pre \<Longrightarrow>
     webp_skipped (chunk_type @ size_bytes @ chunk_data @ pre)"

text \<open>An item of the result and the photo whose loop iteration appended it.\<close>

definition built_from ::
  "pillow option \<Rightarrow> path \<Rightarrow> path \<Rightarrow> int \<Rightarrow> bool \<Rightarrow> path \<Rightarrow> GalleryItem \<Rightarrow> bool" where
  "built_from PIL_Image photos_dir thumbs_dir max_edge skip_thumbs photo item =
     (\<exists>fs fs1. build_item PIL_Image photos_dir thumbs_dir max_edge skip_thumbs fs photo
                  = Inr (fs1, item))"

text \<open>The three filters at the head of the loop body.\<close>

definition candidate :: "filesystem \<Rightarrow> path \<Rightarrow> path \<Rightarrow> bool" where
  "candidate fs thumbs_dir photo =
     (path_parent photo \<noteq> thumbs_dir \<and> is_file fs photo
      \<and> lower (path_suffix photo) \<in> SUPPORTED_EXTENSIONS)"

section \<open>Fixtures\<close>

definition png_100x50 :: bytes where
  "png_100x50 = PNG_SIGNATURE @
     [0, 0, 0, 0x0D, 0x49, 0x48, 0x44, 0x52, 0, 0, 0, 0x64, 0, 0, 0, 0x32, 8, 2, 0, 0, 0]"


text \<open>The first 20 bytes of \<open>png_100x50\<close>.\<close>

definition png_truncated :: bytes where
  "png_truncated = PNG_SIGNATURE @
     [0, 0, 0, 0x0D, 0x49, 0x48, 0x44, 0x52, 0, 0, 0, 0x64]"

text \<open>A JPEG of 200 by 100: an APP0 segment of length 4, then a baseline start of frame.\<close>

definition jpg_200x100 :: bytes where
  "jpg_200x100 =
     [0xFF, 0xD8, 0xFF, 0xE0, 0, 4, 1, 2, 0xFF, 0xC0, 0, 0x11, 8, 0, 0x64, 0, 0xC8, 3]"

text \<open>A lossy WebP of 100 by 50 whose two scale fields are 1 and 2.\<close>

definition webp_vp8_scaled :: bytes where
  "webp_vp8_scaled = tag_RIFF @ [0x1E, 0, 0, 0] @ tag_WEBP @ tag_VP8 @ [0x0A, 0, 0, 0] @
     [0, 0, 0, 0x9D, 0x01, 0x2A, 0x64, 0x40, 0x32, 0x80]"

text \<open>A WebP whose only chunk, \<open>ICCP\<close>, declares 100 bytes of which 2 are there.\<close>

definition webp_cut_chunk :: bytes where
  "webp_cut_chunk = tag_RIFF @ [0x70, 0, 0, 0] @ tag_WEBP @
     [0x49, 0x43, 0x43, 0x50] @ [0x64, 0, 0, 0] @ [1, 2]"

definition photos :: path where
  "photos = [''photos'']"

definition thumbs :: path where
  "thumbs = [''photos'', ''thumbs'']"

definition gallery_fs :: filesystem where
  "gallery_fs = map_of
     [([''photos''], Dir [''b.png'', ''thumbs'', ''a.jpg'']),
      ([''photos'', ''b.png''], File png_100x50),
      ([''photos'', ''a.jpg''], File jpg_200x100),
      ([''photos'', ''thumbs''], Dir [])]"

text \<open>A directory whose first photo is not an image at all.\<close>

definition broken_fs :: filesystem where
  "broken_fs = map_of
     [([''photos''], Dir [''a.png'', ''b.png'']),
      ([''photos'', ''a.png''], File [1, 2, 3]),
      ([''photos'', ''b.png''], File png_100x50)]"


definition parser_fs :: filesystem where
  "parser_fs = map_of
     [([''photos'', ''cut.png''], File png_truncated),
      ([''photos'', ''scaled.webp''], File webp_vp8_scaled),
      ([''photos'', ''cut.webp''], File webp_cut_chunk)]"



text \<open>The items built for \<open>gallery_fs\<close>.\<close>

definition gallery_items :: "GalleryItem list" where
  "gallery_items =
     [\<lparr>src = ''photos/a.jpg'', w = 200, h = 100, alt = ''a'', thumb = None,
       thumbWidth = None, thumbHeight = None, caption = Some ''a''\<rparr>,
      \<lparr>src = ''photos/b.png'', w = 100, h = 50, alt = ''b'', thumb = None,
       thumbWidth = None, thumbHeight = None, caption = Some ''b''\<rparr>]"

section \<open>Properties of the scanning loops\<close>

lemma fp_read_exact: "length xs = n \<Longrightarrow> fp_read n (xs @ ys) = (xs, ys)"
  by (simp add: fp_read_def)

lemma fp_read_short: "length xs < n \<Longrightarrow> fp_read n xs = (xs, [])"
  by (simp add: fp_read_def)

lemma read_marker_fill: "m \<noteq> 0xFF \<Longrightarrow> read_marker (replicate k 0xFF @ m # fp) = ([m], fp)"
  by (induction k) auto

lemma jpeg_scan_other_byte: "b \<noteq> 0xFF \<Longrightarrow> jpeg_scan (b # fp) = jpeg_scan fp"
  by (subst jpeg_scan.simps) (simp add: fp_read_def)

lemma jpeg_scan_segment:
  assumes "m \<noteq> 0xFF" and "m \<notin> JPEG_START_OF_FRAME_MARKERS"
    and "length payload = nat (max (from_bytes_big [l1, l2] - 2) 0)"
  shows "jpeg_scan (0xFF # replicate k 0xFF @ m # l1 # l2 # payload @ fp) = jpeg_scan fp"
  using assms
  by (subst jpeg_scan.simps) (simp add: fp_read_def fp_seek_cur_def read_marker_fill)

lemma start_of_frame_not_fill: "m \<in> JPEG_START_OF_FRAME_MARKERS \<Longrightarrow> m \<noteq> 0xFF"
  by (auto simp: JPEG_START_OF_FRAME_MARKERS_def)

lemma jpeg_scan_start_of_frame:
  assumes "m \<in> JPEG_START_OF_FRAME_MARKERS"
  shows "jpeg_scan (0xFF # replicate k 0xFF @ m # l1 # l2 # tail) =
         Inr (from_bytes_big (slice tail 3 5), from_bytes_big (slice tail 1 3))"
  using assms start_of_frame_not_fill [OF assms]
  by (subst jpeg_scan.simps) (simp add: fp_read_def read_marker_fill slice_def drop_take)

lemma jpeg_scan_skipped: "jpeg_skipped pre \<Longrightarrow> jpeg_scan (pre @ fp) = jpeg_scan fp"
proof (induction rule: jpeg_skipped.induct)
  case skipped_nil
  show ?case by simp
next
  case (skipped_byte b pre)
  then show ?case by (simp add: jpeg_scan_other_byte)
next
  case (skipped_segment m payload l1 l2 pre k)
  have "jpeg_scan (0xFF # replicate k 0xFF @ m # l1 # l2 # payload @ (pre @ fp))
        = jpeg_scan (pre @ fp)"
    using skipped_segment.hyps(1-3) by (rule jpeg_scan_segment)
  then show ?case using skipped_segment.IH by simp
qed

lemma read_jpeg_size_soi: "read_jpeg_size (JPEG_SOI @ fp) = jpeg_scan fp"
  by (simp add: read_jpeg_size_def fp_read_def JPEG_SOI_def)

lemma jpeg_skipped_app0: "jpeg_skipped [0xFF, 0xE0, 0, 4, 1, 2]"
  using skipped_segment [of "0xE0" "[1, 2]" 0 4 "[]" 0] skipped_nil
  by (simp add: JPEG_START_OF_FRAME_MARKERS_def from_bytes_big_def)

lemma webp_scan_end: "length fp < 8 \<Longrightarrow> webp_scan fp = Inl webp_no_dimensions"
  by (subst webp_scan.simps) (simp add: fp_read_def)

lemma webp_scan_chunk:
  assumes "length chunk_type = 4" and "length size_bytes = 4"
    and "fp_read (nat (from_bytes_little size_bytes + from_bytes_little size_bytes mod 2)) fp
           = (chunk_data, fp2)"
    and "\<not> (chunk_type = tag_VP8X \<and> 10 \<le> length chunk_data)"
    and "\<not> (chunk_type = tag_VP8 \<and> 10 \<le> length chunk_data)"
    and "\<not> (chunk_type = tag_VP8L \<and> 5 \<le> length chunk_data)"
  shows "webp_scan (chunk_type @ size_bytes @ fp) = webp_scan fp2"
proof -
  have hdr: "fp_read 8 (chunk_type @ size_bytes @ fp) = (chunk_type @ size_bytes, fp)"
    using assms(1,2) by (simp add: fp_read_def)
  have ty: "slice (chunk_type @ size_bytes) 0 4 = chunk_type"
    using assms(1) by (simp add: slice_def)
  have sz: "drop 4 (chunk_type @ size_bytes) = size_bytes"
    using assms(1) by simp
  have len: "\<not> length (chunk_type @ size_bytes) < 8"
    using assms(1,2) by simp
  show ?thesis
    apply (subst webp_scan.simps)
    apply (simp only: hdr prod.case len if_False Let_def ty sz assms(3))
    using assms(4,5,6) apply (simp only: if_False)
    done
qed

lemma webp_scan_skipped: "webp_skipped pre \<Longrightarrow> webp_scan (pre @ fp) = webp_scan fp"
proof (induction rule: webp_skipped.induct)
  case skipped_none
  show ?case by simp
next
  case (skipped_chunk chunk_type size_bytes chunk_data pre)
  have "webp_scan (chunk_type @ size_bytes @ (chunk_data @ pre @ fp)) = webp_scan (pre @ fp)"
    using skipped_chunk.hyps(1,2) fp_read_exact [OF skipped_chunk.hyps(3)]
      skipped_chunk.hyps(4-6)
    by (rule webp_scan_chunk)
  then show ?case using skipped_chunk.IH by simp
qed

lemma read_webp_size_container:
  "length riff_size = 4 \<Longrightarrow>
   read_webp_size (tag_RIFF @ riff_size @ tag_WEBP @ fp) = webp_scan fp"
  by (simp add: read_webp_size_def fp_read_def slice_def tag_RIFF_def tag_WEBP_def)

lemma webp_skipped_iccp: "webp_skipped ([0x49, 0x43, 0x43, 0x50] @ [2, 0, 0, 0] @ [1, 2])"
  using skipped_chunk [of "[0x49, 0x43, 0x43, 0x50]" "[2, 0, 0, 0]" "[1, 2]" "[]"] skipped_none
  by (simp add: from_bytes_little_def)

section \<open>The parsers\<close>

text \<open>
  C1.  A file with the extension \<open>.png\<close> that starts with the 8-byte PNG signature and holds
  fewer than 24 bytes is claimed to fail with a truncation error and never to yield a
  partial or zero dimension.  The PNG branch checks the signature and nothing else: on the
  first 20 bytes of a 100 by 50 image it returns the width 100 and the height 0, decoded
  from the empty slice \<open>header[20:24]\<close>.
\<close>

theorem png_truncated_returns_zero_height:
  "length png_truncated = 20 \<and> slice png_truncated 0 8 = PNG_SIGNATURE
   \<and> read_image_size parser_fs [''photos'', ''cut.png''] = Inr (100, 0)"
  by code_simp

text \<open>
  C4.  For a \<open>VP8 \<close> chunk the two dimensions are claimed to be the low 14 bits of the
  little-endian 16-bit values at payload bytes 6-7 and 8-9.  The branch assembles the two
  16-bit values and returns them whole: with the scale bits set, the file of 100 by 50 is
  reported as 16484 by 32818, whose low 14 bits are 100 and 50.
\<close>

theorem vp8_scale_bits_kept:
  "read_image_size parser_fs [''photos'', ''scaled.webp''] = Inr (16484, 32818)
   \<and> (16484 :: int) AND 0x3FFF = 100 \<and> (32818 :: int) AND 0x3FFF = 50"
  by code_simp

text \<open>
  C5 as stated: a WebP file with a chunk that declares more bytes than the stream holds
  fails with a read-bounds error that differs from the error for dimensions not found.
  The file \<open>webp_cut_chunk\<close> has such a chunk, and the parser raises the very error it
  raises when no chunk carries dimensions.
\<close>

theorem webp_cut_chunk_counterexample:
  "read_image_size parser_fs [''photos'', ''cut.webp'']
     = Inl (ValueError ''Could not determine WebP dimensions'')"
  by code_simp

text \<open>
  C5, amended.  In a RIFF/WEBP container, let the loop pass over the chunks before a chunk
  whose declared size with padding exceeds the bytes that remain, and let that chunk not be
  one of the three recognised tags with enough bytes at hand for its test.  Then the parser
  fails with the error \<open>Could not determine WebP dimensions\<close>, the same error it raises for
  the container that ends just before that chunk: no separate read-bounds error exists.
\<close>

theorem webp_truncated_chunk_not_distinguished:
  assumes "length riff_size = 4" and "webp_skipped pre"
    and "length chunk_type = 4" and "length size_bytes = 4"
    and "length chunk_data
           < nat (from_bytes_little size_bytes + from_bytes_little size_bytes mod 2)"
    and "\<not> (chunk_type = tag_VP8X \<and> 10 \<le> length chunk_data)"
    and "\<not> (chunk_type = tag_VP8 \<and> 10 \<le> length chunk_data)"
    and "\<not> (chunk_type = tag_VP8L \<and> 5 \<le> length chunk_data)"
  shows "read_webp_size (tag_RIFF @ riff_size @ tag_WEBP @ pre @
                         chunk_type @ size_bytes @ chunk_data) = Inl webp_no_dimensions
       \<and> read_webp_size (tag_RIFF @ riff_size @ tag_WEBP @ pre) = Inl webp_no_dimensions"
proof -
  have "webp_scan (chunk_type @ size_bytes @ chunk_data) = webp_scan []"
    using assms(3,4) fp_read_short [OF assms(5)] assms(6-8) by (rule webp_scan_chunk)
  also have "\<dots> = Inl webp_no_dimensions"
    by (simp add: webp_scan_end)
  finally have "webp_scan (pre @ chunk_type @ size_bytes @ chunk_data) = Inl webp_no_dimensions"
    using webp_scan_skipped [OF assms(2)] by simp
  moreover have "webp_scan (pre @ []) = Inl webp_no_dimensions"
    using webp_scan_skipped [OF assms(2), of "[]"] by (simp add: webp_scan_end)
  ultimately show ?thesis
    using read_webp_size_container [OF assms(1)] by simp
qed

theorem webp_truncated_chunk_not_distinguished_witness:
  "webp_skipped ([0x49, 0x43, 0x43, 0x50] @ [2, 0, 0, 0] @ [1, 2])
   \<and> read_webp_size (tag_RIFF @ [0, 0, 0, 0] @ tag_WEBP @
        ([0x49, 0x43, 0x43, 0x50] @ [2, 0, 0, 0] @ [1, 2]) @
        [0x45, 0x58, 0x49, 0x46] @ [0x64, 0, 0, 0] @ [9, 9, 9]) = Inl webp_no_dimensions
   \<and> read_webp_size (tag_RIFF @ [0, 0, 0, 0] @ tag_WEBP @
        ([0x49, 0x43, 0x43, 0x50] @ [2, 0, 0, 0] @ [1, 2])) = Inl webp_no_dimensions"
proof -
  have size: "length [9, 9, 9 :: byte]
      < nat (from_bytes_little [0x64, 0, 0, 0] + from_bytes_little [0x64, 0, 0, 0] mod 2)"
    by (simp add: from_bytes_little_def)
  have tags: "\<not> ([0x45, 0x58, 0x49, 0x46] = tag_VP8X \<and> 10 \<le> length [9, 9, 9 :: byte])"
    "\<not> ([0x45, 0x58, 0x49, 0x46] = tag_VP8 \<and> 10 \<le> length [9, 9, 9 :: byte])"
    "\<not> ([0x45, 0x58, 0x49, 0x46] = tag_VP8L \<and> 5 \<le> length [9, 9, 9 :: byte])"
    by simp_all
  show ?thesis
    using webp_truncated_chunk_not_distinguished
      [OF _ webp_skipped_iccp _ _ size tags, of "[0, 0, 0, 0]"] webp_skipped_iccp
    by simp
qed

text \<open>
  C6.  When the JPEG loop, having passed over what precedes it, meets a start-of-frame
  marker followed by its whole header, it reads the two length bytes, skips the precision
  byte, reads the height and then the width as 2-byte big-endian values, and returns the
  pair with the width first.
\<close>

theorem jpeg_start_of_frame_dimensions:
  assumes "jpeg_skipped pre" and "m \<in> JPEG_START_OF_FRAME_MARKERS"
  shows "read_jpeg_size (JPEG_SOI @ pre @ 0xFF # replicate k 0xFF @
           [m, l1, l2, precision, h1, h2, w1, w2] @ rest)
         = Inr (from_bytes_big [w1, w2], from_bytes_big [h1, h2])"
proof -
  have "jpeg_scan (0xFF # replicate k 0xFF @ m # l1 # l2 #
                   (precision # h1 # h2 # w1 # w2 # rest))
        = Inr (from_bytes_big [w1, w2], from_bytes_big [h1, h2])"
    by (subst jpeg_scan_start_of_frame [OF assms(2)]) (simp add: slice_def)
  then show ?thesis
    using jpeg_scan_skipped [OF assms(1)] by (simp add: read_jpeg_size_soi)
qed

theorem jpeg_start_of_frame_dimensions_witness:
  "jpeg_skipped [0xFF, 0xE0, 0, 4, 1, 2] \<and> 0xC0 \<in> JPEG_START_OF_FRAME_MARKERS
   \<and> read_jpeg_size jpg_200x100 = Inr (200, 100)"
proof -
  have sof: "0xC0 \<in> JPEG_START_OF_FRAME_MARKERS"
    by (simp add: JPEG_START_OF_FRAME_MARKERS_def)
  show ?thesis
    using jpeg_start_of_frame_dimensions
      [OF jpeg_skipped_app0 sof, of 0 0 "0x11" 8 0 "0x64" 0 "0xC8" "[3]"]
      jpeg_skipped_app0 sof
    by (simp add: jpg_200x100_def JPEG_SOI_def from_bytes_big_def)
qed



section \<open>The resolver\<close>

text \<open>
  C7.  With the image library absent (\<open>Image\<close> is \<open>None\<close>), the dimension resolver returns
  for every path exactly what the manual parser returns for it, failures included.
\<close>

theorem get_image_dimensions_without_pillow:
  "get_image_dimensions None fs p = read_image_size fs p"
  by (simp add: get_image_dimensions_def)

theorem get_image_dimensions_without_pillow_witness:
  "get_image_dimensions None gallery_fs [''photos'', ''a.jpg''] = Inr (200, 100)"
proof -
  have "read_image_size gallery_fs [''photos'', ''a.jpg''] = Inr (200, 100)"
    by code_simp
  then show ?thesis
    using get_image_dimensions_without_pillow [of gallery_fs "[''photos'', ''a.jpg'']"]
    by simp
qed

section \<open>The manifest builder\<close>

lemma build_item_result:
  assumes "build_item PIL pd td me st fs photo = Inr (fs1, item)"
  shows "caption item = Some (alt item)" and "alt item = describe_alt photo"
    and "get_image_dimensions PIL fs photo = Inr (w item, h item)"
    and "src item = as_posix (drop (length (path_parent pd)) photo)"
    and "(thumbWidth item = None) = (thumbHeight item = None)"
    and "PIL = None \<or> st \<Longrightarrow> fs1 = fs"
  using assms unfolding build_item_def relative_to_def generate_thumbnail_def
  by (auto split: sum.splits option.splits prod.splits if_splits simp: Let_def)

lemma build_loop_items:
  "build_loop PIL pd td me st ps0 fs items0 = Inr (fs', items) \<Longrightarrow>
   \<exists>ps new. items = items0 @ new \<and> subseq ps ps0
     \<and> list_all2 (built_from PIL pd td me st) ps new
     \<and> (\<forall>p\<in>set ps. lower (path_suffix p) \<in> SUPPORTED_EXTENSIONS)"
proof (induction ps0 arbitrary: fs items0)
  case Nil
  then show ?case by simp
next
  case (Cons photo rest)
  show ?case
  proof (cases "path_parent photo = td \<or> \<not> is_file fs photo
                 \<or> lower (path_suffix photo) \<notin> SUPPORTED_EXTENSIONS")
    case True
    then have "build_loop PIL pd td me st rest fs items0 = Inr (fs', items)"
      using Cons.prems by (auto split: if_splits)
    from Cons.IH [OF this] obtain ps new where
      new: "items = items0 @ new" "subseq ps rest"
        "list_all2 (built_from PIL pd td me st) ps new"
        "\<forall>p\<in>set ps. lower (path_suffix p) \<in> SUPPORTED_EXTENSIONS"
      by blast
    have "subseq ps (photo # rest)"
      using new(2) by (rule list_emb_Cons)
    with new(1,3,4) show ?thesis by blast
  next
    case False
    then obtain fs1 item where
      item: "build_item PIL pd td me st fs photo = Inr (fs1, item)"
      and loop: "build_loop PIL pd td me st rest fs1 (items0 @ [item]) = Inr (fs', items)"
      using Cons.prems by (auto split: sum.splits if_splits)
    from Cons.IH [OF loop] obtain ps new where
      new: "items = (items0 @ [item]) @ new" "subseq ps rest"
        "list_all2 (built_from PIL pd td me st) ps new"
        "\<forall>p\<in>set ps. lower (path_suffix p) \<in> SUPPORTED_EXTENSIONS"
      by blast
    have "built_from PIL pd td me st photo item"
      using item unfolding built_from_def by blast
    then have "items = items0 @ (item # new) \<and> subseq (photo # ps) (photo # rest)
        \<and> list_all2 (built_from PIL pd td me st) (photo # ps) (item # new)
        \<and> (\<forall>p\<in>set (photo # ps). lower (path_suffix p) \<in> SUPPORTED_EXTENSIONS)"
      using new False by simp
    then show ?thesis by blast
  qed
qed

lemma build_loop_exact:
  assumes "PIL = None \<or> st"
  shows "build_loop PIL pd td me st ps0 fs items0 = Inr (fs', items) \<Longrightarrow>
   \<exists>new. items = items0 @ new
     \<and> list_all2 (built_from PIL pd td me st) (filter (candidate fs td) ps0) new"
proof (induction ps0 arbitrary: items0)
  case Nil
  then show ?case by simp
next
  case (Cons photo rest)
  show ?case
  proof (cases "candidate fs td photo")
    case False
    then have "build_loop PIL pd td me st rest fs items0 = Inr (fs', items)"
      using Cons.prems by (auto simp: candidate_def split: if_splits)
    from Cons.IH [OF this] show ?thesis using False by simp
  next
    case True
    then obtain fs1 item where
      item: "build_item PIL pd td me st fs photo = Inr (fs1, item)"
      and loop: "build_loop PIL pd td me st rest fs1 (items0 @ [item]) = Inr (fs', items)"
      using Cons.prems by (auto simp: candidate_def split: sum.splits if_splits)
    have "fs1 = fs"
      using build_item_result(6) [OF item assms] .
    with Cons.IH [of "items0 @ [item]"] loop obtain new where
      new: "items = (items0 @ [item]) @ new"
        "list_all2 (built_from PIL pd td me st) (filter (candidate fs td) rest) new"
      by blast
    have "built_from PIL pd td me st photo item"
      using item unfolding built_from_def by blast
    then have "items = items0 @ (item # new)
        \<and> list_all2 (built_from PIL pd td me st) (filter (candidate fs td) (photo # rest)) (item # new)"
      using new True by simp
    then show ?thesis by blast
  qed
qed

lemma list_all2_map_eq:
  "list_all2 R xs ys \<Longrightarrow> (\<And>x y. R x y \<Longrightarrow> f y = g x) \<Longrightarrow> map f ys = map g xs"
  by (induction rule: list_all2_induct) auto

lemma list_all2_right_member:
  "list_all2 R xs ys \<Longrightarrow> y \<in> set ys \<Longrightarrow> \<exists>x\<in>set xs. R x y"
  by (induction rule: list_all2_induct) auto







lemma to_dict_caption:
  "map_of (to_dict item) ''caption'' =
     (case caption item of Some c \<Rightarrow> if c \<noteq> [] then Some (JStr c) else None | None \<Rightarrow> None)"
  by (simp add: to_dict_def Let_def split: option.splits)



lemma build_gallery_items_loop:
  assumes "build_gallery_items PIL fs pd td me st = Inr items"
  obtains entries fs1 where "iterdir fs pd = Inr entries"
    and "build_loop PIL pd td me st (sort entries) fs [] = Inr (fs1, items)"
  using assms unfolding build_gallery_items_def
  by (auto split: sum.splits)

lemma built_from_src:
  "built_from PIL pd td me st p item \<Longrightarrow> src item = as_posix (drop (length (path_parent pd)) p)"
  unfolding built_from_def using build_item_result(4) by blast










text \<open>
  C3.  A failure to resolve the dimensions of one photo is claimed to leave the rest of the
  build untouched.  The call \<open>get_image_dimensions(photo)\<close> in the loop is not guarded:
  with a first file that is no PNG, the build raises that file's error and returns no
  manifest, although the second file alone resolves to 100 by 50.
\<close>

theorem build_aborts_on_unreadable_photo:
  "build_gallery_items None broken_fs photos thumbs 1200 False
     = Inl (ValueError ''Not a PNG file'')
   \<and> read_image_size broken_fs [''photos'', ''b.png''] = Inr (100, 50)"
  by code_simp

text \<open>
  C8.  The items of a manifest follow the sorted enumeration of the directory: their
  \<open>src\<close> values are those of a subsequence of the sorted entries, itself sorted by path,
  and nothing reorders them.  When no thumbnail is generated (no image library, or
  thumbnails skipped) the subsequence is exactly the entries that pass the three filters.
  A directory listing \<open>b.png\<close> before \<open>a.jpg\<close> gives the items of \<open>a.jpg\<close>, then
  \<open>b.png\<close>.
\<close>

theorem manifest_keeps_enumeration_order:
  assumes "build_gallery_items PIL fs pd td me st = Inr items"
  shows "\<exists>entries ps. iterdir fs pd = Inr entries \<and> subseq ps (sort entries) \<and> sorted ps
           \<and> map src items = map (\<lambda>p. as_posix (drop (length (path_parent pd)) p)) ps
           \<and> (PIL = None \<or> st \<longrightarrow> ps = filter (candidate fs td) (sort entries))"
proof -
  from assms obtain entries fs1 where
    entries: "iterdir fs pd = Inr entries"
    and loop: "build_loop PIL pd td me st (sort entries) fs [] = Inr (fs1, items)"
    by (rule build_gallery_items_loop)
  show ?thesis
  proof (cases "PIL = None \<or> st")
    case True
    let ?ps = "filter (candidate fs td) (sort entries)"
    from build_loop_exact [OF True loop]
    have all: "list_all2 (built_from PIL pd td me st) ?ps items"
      by simp
    have "map src items = map (\<lambda>p. as_posix (drop (length (path_parent pd)) p)) ?ps"
      using all by (rule list_all2_map_eq) (rule built_from_src)
    moreover have "sorted ?ps"
      by (rule sorted_wrt_filter) simp
    moreover have "subseq ?ps (sort entries)"
      by simp
    ultimately show ?thesis using entries by blast
  next
    case False
    from build_loop_items [OF loop] obtain ps where
      sub: "subseq ps (sort entries)"
      and all: "list_all2 (built_from PIL pd td me st) ps items"
      by auto
    have "map src items = map (\<lambda>p. as_posix (drop (length (path_parent pd)) p)) ps"
      using all by (rule list_all2_map_eq) (rule built_from_src)
    moreover have "sorted ps"
    proof -
      from sub obtain N where "ps = nths (sort entries) N"
        unfolding subseq_conv_nths by blast
      then show ?thesis by (simp add: sorted_nths)
    qed
    ultimately show ?thesis using entries sub False by blast
  qed
qed

theorem manifest_keeps_enumeration_order_witness:
  "build_gallery_items None gallery_fs photos thumbs 1200 False = Inr gallery_items
   \<and> map src gallery_items = [''photos/a.jpg'', ''photos/b.png'']
   \<and> (\<exists>entries ps. iterdir gallery_fs photos = Inr entries \<and> subseq ps (sort entries)
         \<and> sorted ps
         \<and> map src gallery_items = map (\<lambda>p. as_posix (drop (length (path_parent photos)) p)) ps
         \<and> ps = filter (candidate gallery_fs thumbs) (sort entries))"
proof -
  have built: "build_gallery_items None gallery_fs photos thumbs 1200 False = Inr gallery_items"
    by code_simp
  show ?thesis
    using manifest_keeps_enumeration_order [OF built] built
    by (simp add: gallery_items_def)
qed

text \<open>
  C9.  Every item the builder produces has its caption set to its alt text, which is
  derived from the name of one of the directory's entries; its serialisation carries the
  key \<open>caption\<close> with that value whenever the alt text is not empty, and only then lacks
  it.
\<close>

theorem caption_equals_alt:
  assumes "build_gallery_items PIL fs pd td me st = Inr items" and "item \<in> set items"
  shows "caption item = Some (alt item)
       \<and> (\<exists>entries photo. iterdir fs pd = Inr entries \<and> photo \<in> set entries
             \<and> alt item = describe_alt photo)
       \<and> map_of (to_dict item) ''caption'' = (if alt item = [] then None else Some (JStr (alt item)))"
proof -
  from assms(1) obtain entries fs1 where
    entries: "iterdir fs pd = Inr entries"
    and loop: "build_loop PIL pd td me st (sort entries) fs [] = Inr (fs1, items)"
    by (rule build_gallery_items_loop)
  from build_loop_items [OF loop] obtain ps where
    sub: "subseq ps (sort entries)"
    and all: "list_all2 (built_from PIL pd td me st) ps items"
    by auto
  from list_all2_right_member [OF all assms(2)] obtain photo where
    photo: "photo \<in> set ps" "built_from PIL pd td me st photo item"
    by blast
  then obtain fs2 fs3 where item: "build_item PIL pd td me st fs2 photo = Inr (fs3, item)"
    unfolding built_from_def by blast
  have cap: "caption item = Some (alt item)" and alt: "alt item = describe_alt photo"
    using build_item_result(1,2) [OF item] by simp_all
  have "photo \<in> set entries"
    using list_emb_set [OF sub photo(1)] by auto
  with entries alt have "\<exists>entries photo. iterdir fs pd = Inr entries \<and> photo \<in> set entries
             \<and> alt item = describe_alt photo"
    by blast
  moreover have "map_of (to_dict item) ''caption''
      = (if alt item = [] then None else Some (JStr (alt item)))"
    by (simp add: to_dict_caption cap)
  ultimately show ?thesis using cap by blast
qed

theorem caption_equals_alt_witness:
  "build_gallery_items None gallery_fs photos thumbs 1200 False = Inr gallery_items
   \<and> gallery_items ! 1 \<in> set gallery_items
   \<and> caption (gallery_items ! 1) = Some ''b'' \<and> alt (gallery_items ! 1) = ''b''
   \<and> map_of (to_dict (gallery_items ! 1)) ''caption'' = Some (JStr ''b'')"
proof -
  have built: "build_gallery_items None gallery_fs photos thumbs 1200 False = Inr gallery_items"
    by code_simp
  have member: "gallery_items ! 1 \<in> set gallery_items"
    by (simp add: gallery_items_def)
  show ?thesis
    using caption_equals_alt [OF built member] built member
    by (simp add: gallery_items_def)
qed

end
